theory Spec2Isabelle
  imports Complex_Main "HOL-Library.Word" "HOL-Library.List_Lexorder" "HOL-Library.Char_ord"
begin

section \<open>xs/src/Config.cpp: the dynamic configuration store\<close>

text \<open>
  Keys are \<^verbatim>\<open>std::string\<close>s.  A \<^verbatim>\<open>std::map\<close> is an association list that is kept
  strictly sorted by key, so that iterating it (\<^verbatim>\<open>DynamicConfig::keys\<close>) visits the keys
  in the order the C++ container does.
\<close>

type_synonym t_config_option_key = string
type_synonym t_config_option_keys = "t_config_option_key list"
type_synonym t_config_enum_values = "(string \<times> int) list"
type_synonym ('k, 'a) std_map = "('k \<times> 'a) list"

definition map_wf :: "('k::linorder, 'a) std_map \<Rightarrow> bool" where
  "map_wf m = sorted_wrt (<) (map fst m)"

definition map_count :: "('k, 'a) std_map \<Rightarrow> 'k \<Rightarrow> nat" where
  "map_count m k = (case map_of m k of None \<Rightarrow> 0 | Some _ \<Rightarrow> 1)"

text \<open>\<^verbatim>\<open>m[k] = v\<close>: overwrite the entry of \<open>k\<close>, or insert one at its sorted position.\<close>

fun map_assign :: "'k::linorder \<Rightarrow> 'a \<Rightarrow> ('k, 'a) std_map \<Rightarrow> ('k, 'a) std_map" where
  "map_assign k v [] = [(k, v)]"
| "map_assign k v ((k', v') # m) =
     (if k < k' then (k, v) # (k', v') # m
      else if k = k' then (k, v) # m
      else (k', v') # map_assign k v m)"

text \<open>
  \<^verbatim>\<open>m[k]\<close> read as an lvalue: an absent key is first inserted with a value-initialised
  entry (\<open>dflt\<close>), which is what \<^verbatim>\<open>std::map::operator[]\<close> does.
\<close>

definition map_index :: "'a \<Rightarrow> ('k::linorder, 'a) std_map \<Rightarrow> 'k \<Rightarrow> 'a \<times> ('k, 'a) std_map" where
  "map_index dflt m k =
     (case map_of m k of
        Some v \<Rightarrow> (v, m)
      | None \<Rightarrow> (dflt, map_assign k dflt m))"

text \<open>
  The option types that \<^verbatim>\<open>DynamicConfig::option\<close> tests for, in the order of its
  \<^verbatim>\<open>if\<close> chain.  \<open>coUnlisted\<close> stands for every other value the enumeration
  variable can hold (its declaration is in Config.hpp).
\<close>

datatype ConfigOptionType =
    coFloat | coFloats | coInt | coInts | coString | coStrings | coFloatOrPercent
  | coPoint | coPoints | coBool | coBools | coEnum | coUnlisted

record ConfigOptionDef =
  type :: ConfigOptionType
  enum_keys_map :: t_config_enum_values

text \<open>
  One constructor per option class that \<^verbatim>\<open>DynamicConfig::option\<close> instantiates.  The data
  members of the classes are declared in Config.hpp; they are the payload \<open>'v\<close>.  The
  generic enum option also carries the \<^verbatim>\<open>keys_map\<close> it is given from its definition.
\<close>

datatype 'v ConfigOption =
    ConfigOptionFloat 'v
  | ConfigOptionFloats 'v
  | ConfigOptionInt 'v
  | ConfigOptionInts 'v
  | ConfigOptionString 'v
  | ConfigOptionStrings 'v
  | ConfigOptionFloatOrPercent 'v
  | ConfigOptionPoint 'v
  | ConfigOptionPoints 'v
  | ConfigOptionBool 'v
  | ConfigOptionBools 'v
  | ConfigOptionEnumGeneric 'v t_config_enum_values

text \<open>
  What Config.cpp uses from Config.hpp and cannot be read off Config.cpp itself: the
  state of a default-constructed option of each class, the value-initialised
  \<^verbatim>\<open>ConfigOptionDef\<close>, and the virtual \<^verbatim>\<open>serialize\<close> and \<^verbatim>\<open>deserialize\<close>
  (\<^verbatim>\<open>deserialize\<close> mutates the option; here it returns the mutated option).
\<close>

record 'v Config_hpp =
  constructed :: "ConfigOptionType \<Rightarrow> 'v"
  ConfigOptionDef_init :: ConfigOptionDef
  serialize :: "'v ConfigOption \<Rightarrow> string"
  deserialize :: "'v ConfigOption \<Rightarrow> string \<Rightarrow> 'v ConfigOption"

text \<open>
  A \<^verbatim>\<open>DynamicConfig\<close>: the definitions \<^verbatim>\<open>*this->def\<close> and the owned options.  Every
  option object is owned by exactly one entry of \<open>options\<close>, so a \<^verbatim>\<open>ConfigOption*\<close> is
  modelled by the entry's value (\<open>None\<close> is \<^verbatim>\<open>NULL\<close>) and a mutation through the pointer
  by an assignment to the entry.
\<close>

record 'v DynamicConfig =
  def :: "(t_config_option_key, ConfigOptionDef) std_map"
  options :: "(t_config_option_key, 'v ConfigOption) std_map"

text \<open>
  How a call ends: it returns a result, it throws a C string, or it dereferences a null
  pointer.  The configuration as the call leaves it is part of each outcome, since a
  \<^verbatim>\<open>throw\<close> does not undo the mutations made before it.
\<close>

datatype ('a, 's) outcome = Returns 'a 's | Throws string 's | NullDeref 's

text \<open>The \<^verbatim>\<open>if\<close> chain of \<^verbatim>\<open>DynamicConfig::option\<close> that allocates the option.\<close>

definition new_option :: "'v Config_hpp \<Rightarrow> ConfigOptionDef \<Rightarrow> string + 'v ConfigOption" where
  "new_option H optdef =
     (if type optdef = coFloat then Inr (ConfigOptionFloat (constructed H coFloat))
      else if type optdef = coFloats then Inr (ConfigOptionFloats (constructed H coFloats))
      else if type optdef = coInt then Inr (ConfigOptionInt (constructed H coInt))
      else if type optdef = coInts then Inr (ConfigOptionInts (constructed H coInts))
      else if type optdef = coString then Inr (ConfigOptionString (constructed H coString))
      else if type optdef = coStrings then Inr (ConfigOptionStrings (constructed H coStrings))
      else if type optdef = coFloatOrPercent
        then Inr (ConfigOptionFloatOrPercent (constructed H coFloatOrPercent))
      else if type optdef = coPoint then Inr (ConfigOptionPoint (constructed H coPoint))
      else if type optdef = coPoints then Inr (ConfigOptionPoints (constructed H coPoints))
      else if type optdef = coBool then Inr (ConfigOptionBool (constructed H coBool))
      else if type optdef = coBools then Inr (ConfigOptionBools (constructed H coBools))
      else if type optdef = coEnum
        then Inr (ConfigOptionEnumGeneric (constructed H coEnum) (enum_keys_map optdef))
      else Inl ''Unknown option type'')"

definition DynamicConfig_option ::
  "'v Config_hpp \<Rightarrow> 'v DynamicConfig \<Rightarrow> t_config_option_key \<Rightarrow> bool
     \<Rightarrow> ('v ConfigOption option, 'v DynamicConfig) outcome" where
  "DynamicConfig_option H c opt_key create =
     (if map_count (options c) opt_key = 0 then
        (if create then
           (case map_index (ConfigOptionDef_init H) (def c) opt_key of
              (optdef, d) \<Rightarrow>
                (case new_option H optdef of
                   Inl e \<Rightarrow> Throws e (c\<lparr>def := d\<rparr>)
                 | Inr opt \<Rightarrow>
                     Returns (Some opt)
                       (c\<lparr>def := d, options := map_assign opt_key opt (options c)\<rparr>)))
         else Returns None c)
      else Returns (map_of (options c) opt_key) c)"

definition DynamicConfig_keys ::
  "'v DynamicConfig \<Rightarrow> t_config_option_keys \<Rightarrow> t_config_option_keys" where
  "DynamicConfig_keys c keys = keys @ map fst (options c)"

text \<open>\<^verbatim>\<open>ConfigBase::has\<close>; the configuration is returned too, as \<^verbatim>\<open>option\<close> may change it.\<close>

definition ConfigBase_has ::
  "'v Config_hpp \<Rightarrow> 'v DynamicConfig \<Rightarrow> t_config_option_key \<Rightarrow> (bool, 'v DynamicConfig) outcome" where
  "ConfigBase_has H c opt_key =
     (case DynamicConfig_option H c opt_key False of
        Returns p c' \<Rightarrow> Returns (p \<noteq> None) c'
      | Throws e c' \<Rightarrow> Throws e c'
      | NullDeref c' \<Rightarrow> NullDeref c')"

text \<open>
  The loop of \<^verbatim>\<open>ConfigBase::apply\<close> over the keys of \<open>other\<close>, on a \<^verbatim>\<open>DynamicConfig\<close>
  target.  \<^verbatim>\<open>other.option( *it)\<close> is a lookup with \<open>create = false\<close>, which leaves \<open>other\<close>
  as it is; calling \<^verbatim>\<open>serialize\<close> on its result when that is \<^verbatim>\<open>NULL\<close> is a null
  dereference.
\<close>

fun apply_loop ::
  "'v Config_hpp \<Rightarrow> 'v DynamicConfig \<Rightarrow> 'v DynamicConfig \<Rightarrow> bool \<Rightarrow> t_config_option_keys
     \<Rightarrow> (unit, 'v DynamicConfig) outcome" where
  "apply_loop H this other ignore_nonexistent [] = Returns () this"
| "apply_loop H this other ignore_nonexistent (k # ks) =
     (case DynamicConfig_option H this k True of
        Throws e c \<Rightarrow> Throws e c
      | NullDeref c \<Rightarrow> NullDeref c
      | Returns None c \<Rightarrow>
          (if ignore_nonexistent = False
           then Throws ''Attempt to apply non-existent option'' c
           else apply_loop H c other ignore_nonexistent ks)
      | Returns (Some my_opt) c \<Rightarrow>
          (case DynamicConfig_option H other k False of
             Returns (Some other_opt) _ \<Rightarrow>
               apply_loop H
                 (c\<lparr>options := map_assign k (deserialize H my_opt (serialize H other_opt)) (options c)\<rparr>)
                 other ignore_nonexistent ks
           | Returns None _ \<Rightarrow> NullDeref c
           | Throws e _ \<Rightarrow> Throws e c
           | NullDeref _ \<Rightarrow> NullDeref c))"

definition ConfigBase_apply ::
  "'v Config_hpp \<Rightarrow> 'v DynamicConfig \<Rightarrow> 'v DynamicConfig \<Rightarrow> bool
     \<Rightarrow> (unit, 'v DynamicConfig) outcome" where
  "ConfigBase_apply H this other ignore_nonexistent =
     apply_loop H this other ignore_nonexistent (DynamicConfig_keys other [])"

text \<open>
  Vocabulary for stating what \<^verbatim>\<open>apply\<close> does.  \<open>optdef_of\<close> is the definition that
  \<^verbatim>\<open>( *this->def)[opt_key]\<close> yields; \<open>target_option\<close> is the option object that
  \<^verbatim>\<open>this->option(opt_key, true)\<close> hands to \<^verbatim>\<open>apply\<close> (the stored one, or else the
  freshly allocated one), and \<open>None\<close> when the lookup throws; a key is \<open>holdable\<close> when
  there is such an object; \<open>applied\<close> is the option after
  \<^verbatim>\<open>my_opt->deserialize( other.option( *it)->serialize() )\<close>.
\<close>

definition optdef_of ::
  "'v Config_hpp \<Rightarrow> 'v DynamicConfig \<Rightarrow> t_config_option_key \<Rightarrow> ConfigOptionDef" where
  "optdef_of H c k = fst (map_index (ConfigOptionDef_init H) (def c) k)"

definition target_option ::
  "'v Config_hpp \<Rightarrow> 'v DynamicConfig \<Rightarrow> t_config_option_key \<Rightarrow> 'v ConfigOption option" where
  "target_option H c k =
     (case map_of (options c) k of
        Some opt \<Rightarrow> Some opt
      | None \<Rightarrow> (case new_option H (optdef_of H c k) of Inl e \<Rightarrow> None | Inr opt \<Rightarrow> Some opt))"

definition holdable :: "'v Config_hpp \<Rightarrow> 'v DynamicConfig \<Rightarrow> t_config_option_key \<Rightarrow> bool" where
  "holdable H c k = (target_option H c k \<noteq> None)"

definition applied ::
  "'v Config_hpp \<Rightarrow> 'v DynamicConfig \<Rightarrow> 'v DynamicConfig \<Rightarrow> t_config_option_key
     \<Rightarrow> 'v ConfigOption" where
  "applied H this other k =
     deserialize H (the (target_option H this k)) (serialize H (the (map_of (options other) k)))"

text \<open>
  A concrete instance, for running the functions: options whose payload is their
  serialised text, a print configuration that defines two keys and holds one of them,
  and a configuration to apply that holds both.
\<close>

definition text_options :: "string Config_hpp" where
  "text_options =
     \<lparr>constructed = (\<lambda>t. ''''),
      ConfigOptionDef_init = \<lparr>type = coUnlisted, enum_keys_map = []\<rparr>,
      serialize = (\<lambda>opt. case opt of ConfigOptionInt s \<Rightarrow> s | ConfigOptionString s \<Rightarrow> s | _ \<Rightarrow> ''''),
      deserialize = (\<lambda>opt s. case opt of
                        ConfigOptionInt _ \<Rightarrow> ConfigOptionInt s
                      | ConfigOptionString _ \<Rightarrow> ConfigOptionString s
                      | other_class \<Rightarrow> other_class)\<rparr>"

definition print_config :: "string DynamicConfig" where
  "print_config =
     \<lparr>def = [(''notes'', \<lparr>type = coString, enum_keys_map = []\<rparr>),
             (''perimeters'', \<lparr>type = coInt, enum_keys_map = []\<rparr>)],
      options = [(''notes'', ConfigOptionString ''draft'')]\<rparr>"

definition overrides :: "string DynamicConfig" where
  "overrides =
     \<lparr>def = [],
      options = [(''notes'', ConfigOptionString ''final''), (''perimeters'', ConfigOptionInt ''3'')]\<rparr>"

section \<open>src/libslic3r/SLA/SLARaster.cpp: the rasterizer\<close>

type_synonym size_t = "64 word"
type_synonym uint8_t = "8 word"

text \<open>
  Coordinates and pixel dimensions are \<^verbatim>\<open>double\<close>s in the source; they are real numbers
  here.  Points of the input polygons have integer coordinates (\<^verbatim>\<open>coord_t\<close>).
\<close>

record Resolution =
  width_px :: size_t
  height_px :: size_t

text \<open>
  Modelled from the spec: \<^verbatim>\<open>Raster::Resolution::pixels()\<close>, which SLARaster.hpp declares
  and SLARaster.cpp sizes the buffer with: the number of pixels of a
  \<^verbatim>\<open>Resolution{width_px, height_px}\<close>, a product of two \<^verbatim>\<open>size_t\<close>.
\<close>

definition pixels :: "Resolution \<Rightarrow> size_t" where
  "pixels r = width_px r * height_px r"

record PixelDim =
  w_mm :: real
  h_mm :: real

datatype Format = RAW | PNG

record Trafo =
  mirror_x :: bool
  mirror_y :: bool
  gamma :: real

text \<open>
  The two coverage functions of the AGG library that the constructor chooses between,
  by their constructor calls \<^verbatim>\<open>agg::gamma_power(g)\<close> and \<^verbatim>\<open>agg::gamma_threshold(t)\<close>.
\<close>

datatype gamma_function = gamma_power real | gamma_threshold real

text \<open>
  Modelled from the spec: the AGG function objects themselves (agg_gamma_functions.h is
  not among the sources): "a power-law coverage curve" with the given exponent, and "a hard
  threshold" at the given coverage, which maps a coverage below it to nothing and any
  other to full.
\<close>

fun coverage :: "gamma_function \<Rightarrow> real \<Rightarrow> real" where
  "coverage (gamma_power g) x = x powr g"
| "coverage (gamma_threshold t) x = (if x < t then 0 else 1)"

record Point =
  px :: int
  py :: int

type_synonym Polygon = "Point list"

record ExPolygon =
  contour :: Polygon
  holes :: "Polygon list"

text \<open>An \<^verbatim>\<open>agg::path_storage\<close>: the vertices, the first reached by \<^verbatim>\<open>move_to\<close>, the others by \<^verbatim>\<open>line_to\<close>.\<close>

type_synonym path_storage = "(real \<times> real) list"

text \<open>
  Modelled from the spec: \<^verbatim>\<open>agg::path_storage::flip_x(x1, x2)\<close> and \<^verbatim>\<open>flip_y(y1, y2)\<close>
  (AGG is not among the sources): the path "flipped about" the axis, within the given range.
\<close>

definition flip_x :: "real \<Rightarrow> real \<Rightarrow> path_storage \<Rightarrow> path_storage" where
  "flip_x x1 x2 path = map (\<lambda>(x, y). (x2 - x + x1, y)) path"

definition flip_y :: "real \<Rightarrow> real \<Rightarrow> path_storage \<Rightarrow> path_storage" where
  "flip_y y1 y2 path = map (\<lambda>(x, y). (x, y2 - y + y1)) path"

text \<open>
  \<^verbatim>\<open>Raster::Impl\<close>.  The AGG rendering buffer, pixel format and renderers are views of
  \<open>m_buf\<close> and hold no state of their own, so \<open>m_buf\<close> stands for them; a pixel of
  \<^verbatim>\<open>agg::pixfmt_gray8\<close> is one byte.
\<close>

record Impl =
  m_resolution :: Resolution
  m_pxdim_scaled :: PixelDim
  m_buf :: "uint8_t list"
  m_gammafn :: gamma_function
  m_trafo :: Trafo
  m_fmt :: Format

definition ColorWhite :: uint8_t where "ColorWhite = 255"
definition ColorBlack :: uint8_t where "ColorBlack = 0"

text \<open>\<^verbatim>\<open>m_raw_renderer.clear(ColorBlack)\<close>: every pixel of the buffer becomes black.\<close>

definition Impl_clear :: "Impl \<Rightarrow> Impl" where
  "Impl_clear s = s\<lparr>m_buf := replicate (length (m_buf s)) ColorBlack\<rparr>"

text \<open>
  The constructor.  \<open>SCALING_FACTOR\<close> is a constant of libslic3r.h and is a parameter.
  The buffer is a vector of \<^verbatim>\<open>res.pixels()\<close> value-initialised pixels.
\<close>

definition Impl_new :: "real \<Rightarrow> Resolution \<Rightarrow> PixelDim \<Rightarrow> Format \<Rightarrow> Trafo \<Rightarrow> Impl" where
  "Impl_new SCALING_FACTOR res pd fmt trafo =
     Impl_clear
       \<lparr>m_resolution = res,
        m_pxdim_scaled = \<lparr>w_mm = SCALING_FACTOR / w_mm pd, h_mm = SCALING_FACTOR / h_mm pd\<rparr>,
        m_buf = replicate (unat (pixels res)) 0,
        m_gammafn = (if gamma trafo > 0 then gamma_power (gamma trafo) else gamma_threshold 0.5),
        m_trafo = (if fmt = PNG then trafo\<lparr>mirror_y := \<not> mirror_y trafo\<rparr> else trafo),
        m_fmt = fmt\<rparr>"

definition flipy :: "Impl \<Rightarrow> path_storage \<Rightarrow> path_storage" where
  "flipy s path = flip_y 0 (real (unat (height_px (m_resolution s)))) path"

definition flipx :: "Impl \<Rightarrow> path_storage \<Rightarrow> path_storage" where
  "flipx s path = flip_x 0 (real (unat (width_px (m_resolution s)))) path"

definition getPx :: "Impl \<Rightarrow> Point \<Rightarrow> real" where
  "getPx s p = real_of_int (px p) * w_mm (m_pxdim_scaled s)"

definition getPy :: "Impl \<Rightarrow> Point \<Rightarrow> real" where
  "getPy s p = real_of_int (py p) * h_mm (m_pxdim_scaled s)"

text \<open>
  \<^verbatim>\<open>to_path\<close>: the scaled points, then the first point again.  On an empty polygon the
  source dereferences \<^verbatim>\<open>poly.begin()\<close>, which is undefined: \<open>None\<close>.
\<close>

definition to_path :: "Impl \<Rightarrow> Polygon \<Rightarrow> path_storage option" where
  "to_path s poly =
     (case poly of
        [] \<Rightarrow> None
      | front # _ \<Rightarrow>
          Some (map (\<lambda>p. (getPx s p, getPy s p)) poly @ [(getPx s front, getPy s front)]))"

text \<open>The path of one ring as \<^verbatim>\<open>draw\<close> adds it to the rasterizer: converted, then mirrored.\<close>

definition mirrored_path :: "Impl \<Rightarrow> Polygon \<Rightarrow> path_storage option" where
  "mirrored_path s poly =
     (case to_path s poly of
        None \<Rightarrow> None
      | Some path \<Rightarrow>
          (let path1 = (if mirror_x (m_trafo s) then flipx s path else path);
               path2 = (if mirror_y (m_trafo s) then flipy s path1 else path1)
           in Some path2))"

text \<open>
  AGG's scanline rasterizer and renderer are not among the sources and are a parameter: given
  the gamma function set by \<^verbatim>\<open>ras.gamma\<close>, the paths added, the resolution of the
  rendering buffer and the buffer, \<open>render\<close> tells the new value of the pixel at an
  index.  The renderer writes into the buffer it is given and never resizes it.
\<close>

type_synonym agg_render =
  "gamma_function \<Rightarrow> path_storage list \<Rightarrow> Resolution \<Rightarrow> uint8_t list \<Rightarrow> nat \<Rightarrow> uint8_t"

fun all_paths :: "Impl \<Rightarrow> Polygon list \<Rightarrow> path_storage list option" where
  "all_paths s [] = Some []"
| "all_paths s (h # hs) =
     (case mirrored_path s h of
        None \<Rightarrow> None
      | Some holepath \<Rightarrow>
          (case all_paths s hs of None \<Rightarrow> None | Some paths \<Rightarrow> Some (holepath # paths)))"

definition Impl_draw :: "agg_render \<Rightarrow> Impl \<Rightarrow> ExPolygon \<Rightarrow> Impl option" where
  "Impl_draw render s poly =
     (case all_paths s (contour poly # holes poly) of
        None \<Rightarrow> None
      | Some paths \<Rightarrow>
          Some (s\<lparr>m_buf :=
                   map (render (m_gammafn s) paths (m_resolution s) (m_buf s))
                     [0 ..< length (m_buf s)]\<rparr>))"

text \<open>\<^verbatim>\<open>Raster\<close>: the owning pointer \<open>m_impl\<close>, \<open>None\<close> when null.\<close>

record Raster =
  m_impl :: "Impl option"

definition Raster_reset_empty :: "Raster \<Rightarrow> Raster" where
  "Raster_reset_empty r = r\<lparr>m_impl := None\<rparr>"

text \<open>The default constructor: \<^verbatim>\<open>Raster::Raster() { reset(); }\<close>.\<close>

definition Raster_default :: Raster where
  "Raster_default = Raster_reset_empty \<lparr>m_impl = None\<rparr>"

definition Raster_reset ::
  "real \<Rightarrow> Raster \<Rightarrow> Resolution \<Rightarrow> PixelDim \<Rightarrow> Format \<Rightarrow> Trafo \<Rightarrow> Raster" where
  "Raster_reset SCALING_FACTOR r res pd fmt trafo =
     r\<lparr>m_impl := Some (Impl_new SCALING_FACTOR res pd fmt trafo)\<rparr>"



text \<open>
  The operations below start with \<^verbatim>\<open>assert(m_impl)\<close>; on a raster without implementation
  they yield \<open>None\<close>.
\<close>

definition Raster_clear :: "Raster \<Rightarrow> Raster option" where
  "Raster_clear r =
     (case m_impl r of None \<Rightarrow> None | Some s \<Rightarrow> Some (r\<lparr>m_impl := Some (Impl_clear s)\<rparr>))"

definition Raster_draw :: "agg_render \<Rightarrow> Raster \<Rightarrow> ExPolygon \<Rightarrow> Raster option" where
  "Raster_draw render r expoly =
     (case m_impl r of
        None \<Rightarrow> None
      | Some s \<Rightarrow>
          (case Impl_draw render s expoly of
             None \<Rightarrow> None
           | Some s' \<Rightarrow> Some (r\<lparr>m_impl := Some s'\<rparr>)))"






text \<open>The characters of a string copied into a byte vector.\<close>

definition bytes_of :: "string \<Rightarrow> uint8_t list" where
  "bytes_of s = map (\<lambda>c. of_nat (of_char c)) s"






text \<open>
  What a caller can do to a raster between its \<^verbatim>\<open>reset\<close> and a later call: any sequence
  of \<^verbatim>\<open>draw\<close> and \<^verbatim>\<open>clear\<close>.
\<close>

datatype raster_op = Draw ExPolygon | Clear

fun run_ops :: "agg_render \<Rightarrow> Raster \<Rightarrow> raster_op list \<Rightarrow> Raster option" where
  "run_ops render r [] = Some r"
| "run_ops render r (Draw expoly # ops) =
     (case Raster_draw render r expoly of None \<Rightarrow> None | Some r' \<Rightarrow> run_ops render r' ops)"
| "run_ops render r (Clear # ops) =
     (case Raster_clear r of None \<Rightarrow> None | Some r' \<Rightarrow> run_ops render r' ops)"

text \<open>
  Vocabulary for the raster claims: the gamma function that the constructor selects for
  a transformation, the number that a string of decimal digits denotes, and a sample
  raster of 3 by 2 pixels with a renderer that whitens the pixel at index 4.
\<close>

definition selected_gammafn :: "Trafo \<Rightarrow> gamma_function" where
  "selected_gammafn trafo =
     (if gamma trafo > 0 then gamma_power (gamma trafo) else gamma_threshold (1 / 2))"



definition sample_res :: Resolution where
  "sample_res = \<lparr>width_px = 3, height_px = 2\<rparr>"

definition sample_pd :: PixelDim where
  "sample_pd = \<lparr>w_mm = 1, h_mm = 1\<rparr>"

definition sample_trafo :: Trafo where
  "sample_trafo = \<lparr>mirror_x = False, mirror_y = False, gamma = 1\<rparr>"

definition sample_render :: agg_render where
  "sample_render g paths res buf i = (if i = 4 then ColorWhite else buf ! i)"

definition sample_square :: ExPolygon where
  "sample_square =
     \<lparr>contour = [\<lparr>px = 1, py = 1\<rparr>, \<lparr>px = 2, py = 1\<rparr>, \<lparr>px = 2, py = 2\<rparr>, \<lparr>px = 1, py = 2\<rparr>],
      holes = []\<rparr>"

definition sample_raster :: Raster where
  "sample_raster = Raster_reset 1 Raster_default sample_res sample_pd RAW sample_trafo"


text \<open>
  The invariant of a raster that has been reset with a resolution and a transformation:
  it has an implementation, with that resolution, the gamma function selected for the
  transformation, and a buffer of \<^verbatim>\<open>pixels()\<close> bytes.
\<close>

definition reset_inv :: "Resolution \<Rightarrow> Trafo \<Rightarrow> Raster \<Rightarrow> bool" where
  "reset_inv res trafo r =
     (case m_impl r of
        None \<Rightarrow> False
      | Some s \<Rightarrow> m_resolution s = res \<and> m_gammafn s = selected_gammafn trafo
                 \<and> length (m_buf s) = unat (pixels res))"

section \<open>tests/sla_print/sla_print_tests_main.cpp: the mirroring test of the raster\<close>





























section \<open>tests/sla_print/sla_print_tests_main.cpp: the integrity check of a support tree\<close>

text \<open>
  A \<^verbatim>\<open>double\<close> that a tree or a configuration holds is taken to be a finite number, and
  is the real number it denotes.  A \<^verbatim>\<open>double\<close> that the check computes is a finite
  number, an infinity or NaN (the two zeros are one value).
\<close>

datatype double = NaN | MinusInfinity | Finite real | PlusInfinity

text \<open>
  The operations on \<^verbatim>\<open>double\<close>s that are exact: the comparisons \<^verbatim>\<open><\<close> and \<^verbatim>\<open><=\<close>, which are
  false when an operand is NaN, the unary minus, \<^verbatim>\<open>std::abs\<close>, and \<^verbatim>\<open>std::max(a, b)\<close>, which
  is \<^verbatim>\<open>(a < b) ? b : a\<close>.
\<close>

fun d_less :: "double \<Rightarrow> double \<Rightarrow> bool" where
  "d_less NaN b = False"
| "d_less MinusInfinity b = (case b of Finite y \<Rightarrow> True | PlusInfinity \<Rightarrow> True | _ \<Rightarrow> False)"
| "d_less (Finite x) b = (case b of Finite y \<Rightarrow> x < y | PlusInfinity \<Rightarrow> True | _ \<Rightarrow> False)"
| "d_less PlusInfinity b = False"

fun d_le :: "double \<Rightarrow> double \<Rightarrow> bool" where
  "d_le NaN b = False"
| "d_le MinusInfinity b = (case b of NaN \<Rightarrow> False | _ \<Rightarrow> True)"
| "d_le (Finite x) b = (case b of Finite y \<Rightarrow> x \<le> y | PlusInfinity \<Rightarrow> True | _ \<Rightarrow> False)"
| "d_le PlusInfinity b = (case b of PlusInfinity \<Rightarrow> True | _ \<Rightarrow> False)"

fun d_neg :: "double \<Rightarrow> double" where
  "d_neg NaN = NaN"
| "d_neg MinusInfinity = PlusInfinity"
| "d_neg (Finite x) = Finite (- x)"
| "d_neg PlusInfinity = MinusInfinity"

fun d_abs :: "double \<Rightarrow> double" where
  "d_abs NaN = NaN"
| "d_abs MinusInfinity = PlusInfinity"
| "d_abs (Finite x) = Finite \<bar>x\<bar>"
| "d_abs PlusInfinity = PlusInfinity"

definition std_max :: "double \<Rightarrow> double \<Rightarrow> double" where
  "std_max a b = (if d_less a b then b else a)"

text \<open>
  The operations that round, and the library functions: subtraction, addition and
  division of \<^verbatim>\<open>double\<close>s, \<^verbatim>\<open>std::acos\<close>, \<^verbatim>\<open>std::cos\<close>, \<^verbatim>\<open>sla::distance\<close> of a vector (given
  by its three coordinates; it is declared in the support tree headers), and the
  constant \<^verbatim>\<open>PI\<close> of libslic3r.h.  None of them is among the sources, and what they
  return depends on the rounding: they are a parameter of the check.
\<close>

record double_arith =
  fl_sub :: "double \<Rightarrow> double \<Rightarrow> double"
  fl_add :: "double \<Rightarrow> double \<Rightarrow> double"
  fl_div :: "double \<Rightarrow> double \<Rightarrow> double"
  fl_acos :: "double \<Rightarrow> double"
  fl_cos :: "double \<Rightarrow> double"
  fl_distance :: "double \<Rightarrow> double \<Rightarrow> double \<Rightarrow> double"
  fl_PI :: double

text \<open>
  The types are those of the support tree headers, with the members that the check
  reads.  \<^verbatim>\<open>unsigned\<close> counters are natural numbers.
\<close>

datatype Vec3d = Vec3d (vx: real) (vy: real) (vz: real)

record Pillar =
  height :: real
  endpoint :: Vec3d
  links :: nat
  bridges :: nat

record Bridge =
  startp :: Vec3d
  endp :: Vec3d

record SupportConfig =
  object_elevation_mm :: real
  head_front_radius_mm :: real
  head_penetration_mm :: real
  max_solo_pillar_height_mm :: real
  max_dual_pillar_height_mm :: real
  pillar_cascade_neighbors :: nat
  max_bridges_on_pillar :: nat
  bridge_slope :: real
  max_bridge_length_mm :: real
  max_pillar_link_distance_mm :: real
  base_height_mm :: real

text \<open>
  A \<^verbatim>\<open>SupportTreeBuilder\<close> as the check reads it: \<open>ground_level\<close>, \<^verbatim>\<open>pillars()\<close>,
  \<^verbatim>\<open>bridges()\<close> (here \<open>tree_bridges\<close>, as \<open>bridges\<close> is the counter of a pillar) and
  \<^verbatim>\<open>crossbridges()\<close>.
\<close>

record SupportTreeBuilder =
  ground_level :: real
  pillars :: "Pillar list"
  tree_bridges :: "Bridge list"
  crossbridges :: "Bridge list"

text \<open>
  The test of the loop over the pillars:
  \<^verbatim>\<open>std::abs(pillar.endpoint().z() - gnd) < EPSILON\<close>.  \<open>EPSILON\<close> is a constant of
  libslic3r.h and is a parameter.
\<close>

definition on_ground :: "double_arith \<Rightarrow> real \<Rightarrow> SupportTreeBuilder \<Rightarrow> Pillar \<Rightarrow> bool" where
  "on_ground fp EPSILON stree pillar =
     (let gnd = ground_level stree
      in d_less (d_abs (fl_sub fp (Finite (vz (endpoint pillar))) (Finite gnd))) (Finite EPSILON))"

text \<open>
  The body of the loop over the pillars.  The result tells whether every assertion of
  the round holds.
\<close>

definition check_pillar ::
  "double_arith \<Rightarrow> real \<Rightarrow> SupportTreeBuilder \<Rightarrow> SupportConfig \<Rightarrow> Pillar \<Rightarrow> bool" where
  "check_pillar fp EPSILON stree cfg pillar =
     (let H1 = max_solo_pillar_height_mm cfg;
          H2 = max_dual_pillar_height_mm cfg
      in (if on_ground fp EPSILON stree pillar then
            (let h = height pillar
             in if h > H1 then links pillar \<ge> 1
                else if h > H2 then links pillar \<ge> 2
                else True)
          else True)
         \<and> links pillar \<le> pillar_cascade_neighbors cfg
         \<and> bridges pillar \<le> max_bridges_on_pillar cfg)"

text \<open>
  The lambda \<^verbatim>\<open>chck_bridge\<close>.  It updates the running maximum of the bridge lengths and
  asserts the slope; an assertion that fails inside the lambda ends the lambda only, so
  the state carries a flag that tells whether all slope assertions so far held.  The
  vector \<open>n\<close> is the difference of the end points, coordinate by coordinate.
\<close>

definition chck_bridge ::
  "double_arith \<Rightarrow> SupportConfig \<Rightarrow> Bridge \<Rightarrow> double \<times> bool \<Rightarrow> double \<times> bool" where
  "chck_bridge fp cfg bridge st =
     (case st of (max_brlen, passed) \<Rightarrow>
        (let nx = fl_sub fp (Finite (vx (endp bridge))) (Finite (vx (startp bridge)));
             ny = fl_sub fp (Finite (vy (endp bridge))) (Finite (vy (startp bridge)));
             nz = fl_sub fp (Finite (vz (endp bridge))) (Finite (vz (startp bridge)));
             d = fl_distance fp nx ny nz;
             max_brlen' = std_max d max_brlen;
             z = nz;
             polar = fl_acos fp (fl_div fp z d);
             slope = fl_add fp (d_neg polar) (fl_div fp (fl_PI fp) (Finite 2))
         in (max_brlen',
             passed \<and> (d_le (Finite (bridge_slope cfg)) slope
                       \<or> d_le slope (d_neg (Finite (bridge_slope cfg)))))))"

text \<open>
  \<^verbatim>\<open>check_support_tree_integrity\<close>: true when no assertion fails.  An assertion of the
  function body that fails ends the function.
\<close>

definition check_support_tree_integrity ::
  "double_arith \<Rightarrow> real \<Rightarrow> SupportTreeBuilder \<Rightarrow> SupportConfig \<Rightarrow> bool" where
  "check_support_tree_integrity fp EPSILON stree cfg =
     (if \<not> list_all (check_pillar fp EPSILON stree cfg) (pillars stree) then False
      else
        (case foldl (\<lambda>st bridge. chck_bridge fp cfg bridge st) (Finite 0, True)
                (tree_bridges stree) of
           (max_bridgelen, passed) \<Rightarrow>
             if \<not> d_le max_bridgelen (Finite (max_bridge_length_mm cfg)) then False
             else
               (case foldl (\<lambda>st bridge. chck_bridge fp cfg bridge st) (Finite 0, passed)
                       (crossbridges stree) of
                  (max_bridgelen', passed') \<Rightarrow>
                    (let md = fl_div fp (Finite (max_pillar_link_distance_mm cfg))
                                (fl_cos fp (d_neg (Finite (bridge_slope cfg))))
                     in passed' \<and> d_le max_bridgelen' md))))"

text \<open>
  An arithmetic without rounding, for running the check.  On finite numbers each
  operation gives the exact result where that is a real number; a quotient by zero is
  an infinity, or NaN for zero by zero; the arc cosine of a number outside \<open>[-1, 1]\<close> is
  NaN.  On the other values each operation gives NaN.
\<close>

definition exact2 :: "(real \<Rightarrow> real \<Rightarrow> real) \<Rightarrow> double \<Rightarrow> double \<Rightarrow> double" where
  "exact2 f a b = (case (a, b) of (Finite x, Finite y) \<Rightarrow> Finite (f x y) | _ \<Rightarrow> NaN)"

definition exact_div :: "double \<Rightarrow> double \<Rightarrow> double" where
  "exact_div a b =
     (case (a, b) of
        (Finite x, Finite y) \<Rightarrow>
          if y \<noteq> 0 then Finite (x / y)
          else if x = 0 then NaN
          else if 0 < x then PlusInfinity
          else MinusInfinity
      | _ \<Rightarrow> NaN)"

definition exact_arith :: double_arith where
  "exact_arith =
     \<lparr>fl_sub = exact2 (\<lambda>x y. x - y),
      fl_add = exact2 (\<lambda>x y. x + y),
      fl_div = exact_div,
      fl_acos = (\<lambda>a. case a of Finite x \<Rightarrow> if \<bar>x\<bar> \<le> 1 then Finite (arccos x) else NaN
                      | _ \<Rightarrow> NaN),
      fl_cos = (\<lambda>a. case a of Finite x \<Rightarrow> Finite (cos x) | _ \<Rightarrow> NaN),
      fl_distance = (\<lambda>a b c. case (a, b, c) of
                       (Finite x, Finite y, Finite z) \<Rightarrow> Finite (sqrt (x\<^sup>2 + y\<^sup>2 + z\<^sup>2))
                     | _ \<Rightarrow> NaN),
      fl_PI = Finite pi\<rparr>"

text \<open>
  Vocabulary of the claim about the pillars: a pillar touches the ground plane when its
  end point is within \<open>EPSILON\<close> of the ground level.
\<close>

definition touches_ground :: "real \<Rightarrow> SupportTreeBuilder \<Rightarrow> Pillar \<Rightarrow> bool" where
  "touches_ground EPSILON stree pillar = (\<bar>vz (endpoint pillar) - ground_level stree\<bar> < EPSILON)"

text \<open>
  A sample: a configuration with the solo limit below the dual limit, and a tree of one
  pillar that stands on the ground, is 40 high and has a single link.
\<close>

definition sample_cfg :: SupportConfig where
  "sample_cfg =
     \<lparr>object_elevation_mm = 5, head_front_radius_mm = 0.2, head_penetration_mm = 0.2,
      max_solo_pillar_height_mm = 15, max_dual_pillar_height_mm = 35,
      pillar_cascade_neighbors = 3, max_bridges_on_pillar = 3,
      bridge_slope = pi / 4, max_bridge_length_mm = 10, max_pillar_link_distance_mm = 10,
      base_height_mm = 1\<rparr>"

definition tall_pillar :: Pillar where
  "tall_pillar = \<lparr>height = 40, endpoint = Vec3d 0 0 0, links = 1, bridges = 0\<rparr>"

definition tall_pillar_tree :: SupportTreeBuilder where
  "tall_pillar_tree =
     \<lparr>ground_level = 0, pillars = [tall_pillar], tree_bridges = [], crossbridges = []\<rparr>"
section \<open>The pairing hash of pillar indices\<close>

text \<open>
  Modelled from the spec: \<^verbatim>\<open>sla::pairhash<I, II>(a, b)\<close>, which the support tree headers
  define and the test instantiates at \<^verbatim>\<open><int, long>\<close>, \<^verbatim>\<open><unsigned, unsigned>\<close> and
  \<^verbatim>\<open><unsigned, unsigned long>\<close>; no definition of it is among the sources.  The spec asks for "a
  symmetric pairing scheme over candidate pillar indices" in which "the same unordered
  pair must always hash to the same bucket regardless of query order".  The model
  orders the pair and packs the smaller index above the larger one: the result, of the
  wider type \<open>'b\<close>, is the smaller index shifted left by \<open>shift\<close> bits plus the larger
  index, in the arithmetic of \<open>'b\<close>.
\<close>

definition pairhash :: "nat \<Rightarrow> 'a::len word \<Rightarrow> 'a word \<Rightarrow> 'b::len word" where
  "pairhash shift a b =
     (let g = min a b; l = max a b
      in push_bit shift (ucast g) + ucast l)"

text \<open>
  \<^verbatim>\<open>test_pairhash<I, II>\<close> of tests/sla_print/sla_print_tests_main.cpp, for any hash function.
  \<open>ints\<close> is the \<^verbatim>\<open>std::map<II, std::pair<I, I>>\<close>; only look-ups and insertions are made,
  so it is a partial function.  An assertion that fails ends the test: \<open>None\<close>.
\<close>

type_synonym ('a, 'b) ints = "'b word \<rightharpoonup> 'a word \<times> 'a word"

text \<open>The body of the inner loop.\<close>

definition pairhash_round ::
  "('a::len word \<Rightarrow> 'a word \<Rightarrow> 'b::len word) \<Rightarrow> 'a word \<Rightarrow> 'a word \<Rightarrow> ('a, 'b) ints
     \<Rightarrow> ('a, 'b) ints option" where
  "pairhash_round hash i j ints =
     (if j \<noteq> i then
        (let hash_ij = hash i j; hash_ji = hash j i
         in if hash_ij \<noteq> hash_ji then None
            else (case ints hash_ij of
                    Some it \<Rightarrow>
                      if (fst it = i \<and> snd it = j) \<or> (fst it = j \<and> snd it = i)
                      then Some ints else None
                  | None \<Rightarrow> Some (ints(hash_ij \<mapsto> (i, j)))))
      else Some ints)"

text \<open>The inner loop over \<open>j\<close> and the outer loop over \<open>i\<close>, each over the values it visits.\<close>

fun pairhash_inner ::
  "('a::len word \<Rightarrow> 'a word \<Rightarrow> 'b::len word) \<Rightarrow> 'a word \<Rightarrow> 'a word list \<Rightarrow> ('a, 'b) ints
     \<Rightarrow> ('a, 'b) ints option" where
  "pairhash_inner hash i [] ints = Some ints"
| "pairhash_inner hash i (j # js) ints =
     (case pairhash_round hash i j ints of
        None \<Rightarrow> None
      | Some ints' \<Rightarrow> pairhash_inner hash i js ints')"

fun pairhash_outer ::
  "('a::len word \<Rightarrow> 'a word \<Rightarrow> 'b::len word) \<Rightarrow> 'a word list \<Rightarrow> 'a word list \<Rightarrow> ('a, 'b) ints
     \<Rightarrow> ('a, 'b) ints option" where
  "pairhash_outer hash [] js ints = Some ints"
| "pairhash_outer hash (i # is) js ints =
     (case pairhash_inner hash i js ints of
        None \<Rightarrow> None
      | Some ints' \<Rightarrow> pairhash_outer hash is js ints')"

text \<open>
  The test with both loops running over \<open>0, \<dots>, n - 1\<close>; the source has \<open>n = 1000\<close>.  The
  result tells whether the test ran to its end without a failed assertion.
\<close>

definition test_pairhash_upto ::
  "nat \<Rightarrow> ('a::len word \<Rightarrow> 'a word \<Rightarrow> 'b::len word) \<Rightarrow> bool" where
  "test_pairhash_upto n hash =
     (pairhash_outer hash (map of_nat [0 ..< n]) (map of_nat [0 ..< n]) Map.empty \<noteq> None)"

definition test_pairhash :: "('a::len word \<Rightarrow> 'a word \<Rightarrow> 'b::len word) \<Rightarrow> bool" where
  "test_pairhash hash = test_pairhash_upto 1000 hash"

text \<open>
  What the test is about: on a set of indices, the hash of two different indices does
  not depend on their order, and pairs of different indices with the same hash are the
  same unordered pair.
\<close>

definition symmetric_on :: "'a word set \<Rightarrow> ('a::len word \<Rightarrow> 'a word \<Rightarrow> 'b::len word) \<Rightarrow> bool" where
  "symmetric_on S hash = (\<forall>i\<in>S. \<forall>j\<in>S. i \<noteq> j \<longrightarrow> hash i j = hash j i)"

definition collision_free_on :: "'a word set \<Rightarrow> ('a::len word \<Rightarrow> 'a word \<Rightarrow> 'b::len word) \<Rightarrow> bool" where
  "collision_free_on S hash =
     (\<forall>i\<in>S. \<forall>j\<in>S. \<forall>i'\<in>S. \<forall>j'\<in>S.
        i \<noteq> j \<longrightarrow> i' \<noteq> j' \<longrightarrow> hash i j = hash i' j' \<longrightarrow> {i, j} = {i', j'})"

text \<open>
  The invariants of the two directions of the proof.  A pair is \<open>recorded\<close> once its
  round has passed: both orders hash alike and the map holds the pair, in one order or
  the other, under its hash.  The map satisfies \<open>ints_inv\<close> when each entry is a pair of
  different indices stored under its own hash.
\<close>

definition recorded :: "('a::len word \<Rightarrow> 'a word \<Rightarrow> 'b::len word) \<Rightarrow> ('a, 'b) ints \<Rightarrow> 'a word \<Rightarrow> 'a word \<Rightarrow> bool" where
  "recorded hash ints i j =
     (hash i j = hash j i \<and> (ints (hash i j) = Some (i, j) \<or> ints (hash i j) = Some (j, i)))"

definition ints_inv :: "'a word set \<Rightarrow> ('a::len word \<Rightarrow> 'a word \<Rightarrow> 'b::len word) \<Rightarrow> ('a, 'b) ints \<Rightarrow> bool" where
  "ints_inv S hash ints =
     (\<forall>k a b. ints k = Some (a, b) \<longrightarrow> a \<in> S \<and> b \<in> S \<and> a \<noteq> b \<and> hash a b = k)"

section \<open>Slicing the support tree over a grid\<close>

text \<open>
  A slice is an \<^verbatim>\<open>ExPolygons\<close>, a list of polygons with holes.  Cutting a mesh at one
  level and closing the contours by a radius is the work of the mesh slicer, which is
  not among the sources: \<open>section_at\<close> is a parameter.
\<close>

type_synonym ExPolygons = "ExPolygon list"

text \<open>
  Modelled from the spec: \<^verbatim>\<open>TriangleMeshSlicer::slice(grid, closing_radius, &slices, ...)\<close>
  and \<^verbatim>\<open>SupportTreeBuilder::slice(grid, closing_radius)\<close>, neither among the sources.  The spec
  has the model sliced into "per-layer polygon slices of the model over a vertical
  grid", and the tree "separately sliceable: given an externally supplied Z-grid and a
  closing radius (for numerical contour cleanup), produce one \<^verbatim>\<open>ExPolygons\<close> (set of
  filled contours with holes) per grid level"; the tree is sliced through the mesh it
  is "exportable as" (\<^verbatim>\<open>retrieve_mesh()\<close>, here \<open>retrieve_mesh\<close>).
\<close>

definition TriangleMeshSlicer_slice ::
  "('mesh \<Rightarrow> real \<Rightarrow> real \<Rightarrow> ExPolygons) \<Rightarrow> 'mesh \<Rightarrow> real list \<Rightarrow> real \<Rightarrow> ExPolygons list" where
  "TriangleMeshSlicer_slice section_at mesh grid closing_radius =
     map (\<lambda>z. section_at mesh z closing_radius) grid"

definition SupportTreeBuilder_slice ::
  "('mesh \<Rightarrow> real \<Rightarrow> real \<Rightarrow> ExPolygons) \<Rightarrow> ('tree \<Rightarrow> 'mesh) \<Rightarrow> 'tree \<Rightarrow> real list \<Rightarrow> real
     \<Rightarrow> ExPolygons list" where
  "SupportTreeBuilder_slice section_at retrieve_mesh stree grid closing_radius =
     TriangleMeshSlicer_slice section_at (retrieve_mesh stree) grid closing_radius"

text \<open>
  The assertion of \<^verbatim>\<open>test_support_model_collision\<close> on the two lists of slices:
  \<^verbatim>\<open>ASSERT_EQ(support_slices.size(), byproducts.model_slices.size())\<close>.
\<close>

definition slice_counts_match :: "ExPolygons list \<Rightarrow> ExPolygons list \<Rightarrow> bool" where
  "slice_counts_match support_slices model_slices =
     (length support_slices = length model_slices)"

section \<open>Configuration store: lookup and apply\<close>

lemma map_of_map_assign: "map_of (map_assign k v m) = (map_of m)(k \<mapsto> v)"
  by (induction m) (auto simp: fun_eq_iff)

lemma map_index_fst:
  "fst (map_index dflt m k) = (case map_of m k of Some v \<Rightarrow> v | None \<Rightarrow> dflt)"
  by (simp add: map_index_def split: option.splits)

lemma map_of_map_index_snd:
  "map_of (snd (map_index dflt m k)) =
     (case map_of m k of Some v \<Rightarrow> map_of m | None \<Rightarrow> (map_of m)(k \<mapsto> dflt))"
  by (simp add: map_index_def map_of_map_assign split: option.splits)

lemma map_wf_distinct: "map_wf m \<Longrightarrow> distinct (map fst m)"
  unfolding map_wf_def by (simp add: strict_sorted_iff)

text \<open>Reading a definition inserts at most a value-initialised entry, which reads the same.\<close>

lemma optdef_of_map_index:
  "optdef_of H (c\<lparr>def := snd (map_index (ConfigOptionDef_init H) (def c) k')\<rparr>) k = optdef_of H c k"
  by (auto simp: optdef_of_def map_index_fst map_of_map_index_snd split: option.splits)

lemma optdef_of_options_update [simp]:
  "optdef_of H (c\<lparr>options := m\<rparr>) k = optdef_of H c k"
  by (simp add: optdef_of_def)

lemma new_option_Inl: "new_option H d = Inl e \<Longrightarrow> e = ''Unknown option type''"
  by (simp add: new_option_def split: if_splits)

lemma option_lookup_absent:
  "map_of (options c) k = None \<Longrightarrow> DynamicConfig_option H c k False = Returns None c"
  by (simp add: DynamicConfig_option_def map_count_def)

lemma option_lookup_present:
  "map_of (options c) k = Some opt \<Longrightarrow> DynamicConfig_option H c k create = Returns (Some opt) c"
  by (simp add: DynamicConfig_option_def map_count_def)

lemma option_create_absent:
  "map_of (options c) k = None \<Longrightarrow>
   DynamicConfig_option H c k True =
     (case new_option H (optdef_of H c k) of
        Inl e \<Rightarrow>
          Throws ''Unknown option type''
            (c\<lparr>def := snd (map_index (ConfigOptionDef_init H) (def c) k)\<rparr>)
      | Inr opt \<Rightarrow>
          Returns (Some opt)
            (c\<lparr>def := snd (map_index (ConfigOptionDef_init H) (def c) k),
               options := map_assign k opt (options c)\<rparr>))"
  by (auto simp: DynamicConfig_option_def map_count_def optdef_of_def
      split: prod.splits sum.splits dest: new_option_Inl)

lemma has_absent: "map_of (options c) k = None \<Longrightarrow> ConfigBase_has H c k = Returns False c"
  by (simp add: ConfigBase_has_def option_lookup_absent)

lemma target_option_cong:
  "map_of (options c) k = map_of (options c') k \<Longrightarrow> optdef_of H c k = optdef_of H c' k
   \<Longrightarrow> target_option H c k = target_option H c' k"
  unfolding target_option_def by presburger

text \<open>One round of the loop on a key the target can hold: the key's entry is assigned.\<close>

lemma apply_loop_step_ok:
  assumes "holdable H this k" and "map_of (options other) k \<noteq> None"
  shows "\<exists>c. apply_loop H this other ign (k # ks) = apply_loop H c other ign ks
            \<and> map_of (options c) = (map_of (options this))(k \<mapsto> applied H this other k)
            \<and> (\<forall>x. optdef_of H c x = optdef_of H this x)"
proof (cases "map_of (options this) k")
  case (Some opt)
  with assms show ?thesis
    by (auto simp: option_lookup_present applied_def target_option_def map_of_map_assign
        intro!: exI[of _ "this\<lparr>options := map_assign k (applied H this other k) (options this)\<rparr>"])
next
  case None
  from assms None obtain opt where opt: "new_option H (optdef_of H this k) = Inr opt"
    by (auto simp: holdable_def target_option_def split: sum.splits)
  from assms obtain oo where oo: "map_of (options other) k = Some oo" by auto
  let ?c = "this\<lparr>def := snd (map_index (ConfigOptionDef_init H) (def this) k),
                options := map_assign k (applied H this other k) (map_assign k opt (options this))\<rparr>"
  have "apply_loop H this other ign (k # ks) = apply_loop H ?c other ign ks"
    using None opt oo
    by (simp add: option_create_absent option_lookup_present applied_def target_option_def)
  moreover have "map_of (options ?c) = (map_of (options this))(k \<mapsto> applied H this other k)"
    by (simp add: map_of_map_assign)
  moreover have "\<forall>x. optdef_of H ?c x = optdef_of H this x"
    using optdef_of_map_index[of H this k] by (simp add: optdef_of_def)
  ultimately show ?thesis by blast
qed

text \<open>One round on a key the target cannot hold: the lookup throws, whatever the flag.\<close>

lemma apply_loop_step_fail:
  assumes "\<not> holdable H this k"
  shows "\<exists>c. apply_loop H this other ign (k # ks) = Throws ''Unknown option type'' c
            \<and> map_of (options c) = map_of (options this)"
proof -
  from assms have None: "map_of (options this) k = None"
    and "\<exists>e. new_option H (optdef_of H this k) = Inl e"
    by (auto simp: holdable_def target_option_def split: option.splits sum.splits)
  then show ?thesis
    by (auto simp: option_create_absent)
qed

text \<open>
  The whole loop, by induction on the keys with the target generalised: the keys up to
  the first one that cannot be held are assigned, the rest of the target is untouched.
\<close>

lemma apply_loop_char:
  assumes "distinct ks" and "\<forall>k\<in>set ks. map_of (options other) k \<noteq> None"
  shows "\<exists>this'. apply_loop H this other ign ks =
            (if \<forall>k\<in>set ks. holdable H this k then Returns () this'
             else Throws ''Unknown option type'' this')
          \<and> (\<forall>k. map_of (options this') k =
                (if k \<in> set (takeWhile (holdable H this) ks) then Some (applied H this other k)
                 else map_of (options this) k))"
  using assms
proof (induction ks arbitrary: this)
  case Nil
  then show ?case by simp
next
  case (Cons k ks)
  show ?case
  proof (cases "holdable H this k")
    case False
    from apply_loop_step_fail[OF False, of other ign ks] show ?thesis
      using False by auto
  next
    case True
    from Cons.prems have other_k: "map_of (options other) k \<noteq> None" by simp
    from apply_loop_step_ok[OF True other_k, of ign ks] obtain c where
      step: "apply_loop H this other ign (k # ks) = apply_loop H c other ign ks"
      and opts: "map_of (options c) = (map_of (options this))(k \<mapsto> applied H this other k)"
      and defs: "\<forall>x. optdef_of H c x = optdef_of H this x"
      by blast
    from Cons.prems have notin: "k \<notin> set ks" and d: "distinct ks"
      and o: "\<forall>k\<in>set ks. map_of (options other) k \<noteq> None" by auto
    have same: "target_option H c x = target_option H this x" if "x \<in> set ks" for x
    proof -
      from that notin have "x \<noteq> k" by auto
      then show ?thesis using opts defs by (intro target_option_cong) auto
    qed
    then have hold: "holdable H c x = holdable H this x" if "x \<in> set ks" for x
      using that by (simp add: holdable_def)
    then have tw: "takeWhile (holdable H c) ks = takeWhile (holdable H this) ks"
      by (intro takeWhile_cong) auto
    have app: "applied H c other x = applied H this other x" if "x \<in> set ks" for x
      using same[OF that] by (simp add: applied_def)
    from Cons.IH[OF d o, of c] obtain this' where
      res: "apply_loop H c other ign ks =
              (if \<forall>k\<in>set ks. holdable H c k then Returns () this'
               else Throws ''Unknown option type'' this')"
      and fin: "\<forall>x. map_of (options this') x =
                (if x \<in> set (takeWhile (holdable H c) ks) then Some (applied H c other x)
                 else map_of (options c) x)"
      by blast
    have "apply_loop H this other ign (k # ks) =
            (if \<forall>x\<in>set (k # ks). holdable H this x then Returns () this'
             else Throws ''Unknown option type'' this')"
      using step res True hold by auto
    moreover have "\<forall>x. map_of (options this') x =
                (if x \<in> set (takeWhile (holdable H this) (k # ks)) then Some (applied H this other x)
                 else map_of (options this) x)"
    proof
      fix x
      show "map_of (options this') x =
                (if x \<in> set (takeWhile (holdable H this) (k # ks)) then Some (applied H this other x)
                 else map_of (options this) x)"
      proof (cases "x \<in> set (takeWhile (holdable H this) ks)")
        case True
        then have "x \<in> set ks" by (rule set_takeWhileD[THEN conjunct1])
        with True show ?thesis using fin tw app \<open>holdable H this k\<close> by simp
      next
        case False
        then show ?thesis using fin tw opts \<open>holdable H this k\<close> by simp
      qed
    qed
    ultimately show ?thesis by blast
  qed
qed

text \<open>
  Claim C10, as the code has it.  A lookup with \<open>create = false\<close> of a key the
  configuration does not hold returns \<^verbatim>\<open>NULL\<close> and changes nothing, and \<^verbatim>\<open>has\<close> is
  false.  \<^verbatim>\<open>apply\<close> on a \<^verbatim>\<open>DynamicConfig\<close> target looks every key of \<open>other\<close> up with
  \<open>create = true\<close>: a key the target lacks is allocated from its definition and then
  assigned like the others.  So when the target can hold every key of \<open>other\<close> the call
  returns, and the target then has every key of \<open>other\<close> (not only those it had before),
  each deserialised from the other option's serialisation, and its remaining keys are
  as before.  Otherwise the call throws "Unknown option type" at the first key of
  \<open>other\<close> that the target lacks and whose definition has none of the twelve types; the
  keys before that one have been assigned.  The outcome does not depend on
  \<open>ignore_nonexistent\<close>, and "Attempt to apply non-existent option" is never thrown.
\<close>

theorem config_lookup_and_apply:
  assumes "map_wf (options other)"
  shows "(map_of (options c) key = None \<longrightarrow>
            DynamicConfig_option H c key False = Returns None c
          \<and> ConfigBase_has H c key = Returns False c)
       \<and> (\<exists>this'.
            ConfigBase_apply H this other ignore_nonexistent =
              (if \<forall>k\<in>set (DynamicConfig_keys other []). holdable H this k
               then Returns () this'
               else Throws ''Unknown option type'' this')
          \<and> (\<forall>k. map_of (options this') k =
                (if k \<in> set (takeWhile (holdable H this) (DynamicConfig_keys other []))
                 then Some (applied H this other k)
                 else map_of (options this) k)))"
proof -
  have d: "distinct (DynamicConfig_keys other [])"
    using assms by (simp add: DynamicConfig_keys_def map_wf_distinct)
  have p: "\<forall>k\<in>set (DynamicConfig_keys other []). map_of (options other) k \<noteq> None"
    by (simp add: DynamicConfig_keys_def map_of_eq_None_iff)
  show ?thesis
    unfolding ConfigBase_apply_def
    using apply_loop_char[OF d p, of H this ignore_nonexistent]
    by (simp add: option_lookup_absent has_absent)
qed

text \<open>
  The theorem at the sample configurations: \<open>overrides\<close> is well formed,
  \<open>print_config\<close> does not hold \<open>perimeters\<close>, and after \<^verbatim>\<open>apply\<close> it holds both keys with
  the values of \<open>overrides\<close>.
\<close>

theorem config_lookup_and_apply_witness:
  "map_wf (options overrides)
   \<and> DynamicConfig_option text_options print_config ''perimeters'' False = Returns None print_config
   \<and> ConfigBase_has text_options print_config ''perimeters'' = Returns False print_config
   \<and> (\<exists>this'. ConfigBase_apply text_options print_config overrides False = Returns () this'
         \<and> map_of (options this') ''notes'' = Some (ConfigOptionString ''final'')
         \<and> map_of (options this') ''perimeters'' = Some (ConfigOptionInt ''3''))"
proof -
  have wf: "map_wf (options overrides)"
    by (simp add: map_wf_def overrides_def)
  have absent: "map_of (options print_config) ''perimeters'' = None"
    by (simp add: print_config_def)
  have h1: "holdable text_options print_config ''notes''"
    by (simp add: holdable_def target_option_def print_config_def)
  have h2: "holdable text_options print_config ''perimeters''"
    by (simp add: holdable_def target_option_def optdef_of_def map_index_def new_option_def
        print_config_def text_options_def)
  have a1: "applied text_options print_config overrides ''notes'' = ConfigOptionString ''final''"
    by (simp add: applied_def target_option_def print_config_def overrides_def text_options_def)
  have a2: "applied text_options print_config overrides ''perimeters'' = ConfigOptionInt ''3''"
    by (simp add: applied_def target_option_def optdef_of_def map_index_def new_option_def
        print_config_def overrides_def text_options_def)
  have keys: "DynamicConfig_keys overrides [] = [''notes'', ''perimeters'']"
    by (simp add: DynamicConfig_keys_def overrides_def)
  from config_lookup_and_apply[OF wf, of print_config "''perimeters''" text_options print_config False]
  show ?thesis
    using wf absent h1 h2 a1 a2 by (auto simp: keys)
qed

text \<open>
  Claim C10 as stated fails: \<open>print_config\<close> does not hold \<open>perimeters\<close>, yet
  \<^verbatim>\<open>apply(overrides, true)\<close> does not skip that key; it creates it and copies the value.
\<close>

theorem apply_creates_missing_key_counterexample:
  "ConfigBase_has text_options print_config ''perimeters'' = Returns False print_config
   \<and> ConfigBase_apply text_options print_config overrides True =
       Returns ()
         \<lparr>def = [(''notes'', \<lparr>type = coString, enum_keys_map = []\<rparr>),
                 (''perimeters'', \<lparr>type = coInt, enum_keys_map = []\<rparr>)],
          options = [(''notes'', ConfigOptionString ''final''),
                     (''perimeters'', ConfigOptionInt ''3'')]\<rparr>"
  by (simp add: ConfigBase_has_def ConfigBase_apply_def DynamicConfig_keys_def
      DynamicConfig_option_def map_count_def map_index_def new_option_def
      print_config_def overrides_def text_options_def)

section \<open>Rasterizer: what a reset fixes for the later calls\<close>

lemma Impl_clear_frame:
  "m_resolution (Impl_clear s) = m_resolution s"
  "m_gammafn (Impl_clear s) = m_gammafn s"
  "length (m_buf (Impl_clear s)) = length (m_buf s)"
  by (simp_all add: Impl_clear_def)

lemma Impl_draw_frame:
  assumes "Impl_draw render s poly = Some s'"
  shows "m_resolution s' = m_resolution s" and "m_gammafn s' = m_gammafn s"
    and "length (m_buf s') = length (m_buf s)"
  using assms by (auto simp: Impl_draw_def split: option.splits)

lemma Impl_new_fields:
  "m_resolution (Impl_new SF res pd fmt trafo) = res"
  "m_gammafn (Impl_new SF res pd fmt trafo) = selected_gammafn trafo"
  "length (m_buf (Impl_new SF res pd fmt trafo)) = unat (pixels res)"
  by (simp_all add: Impl_new_def Impl_clear_def selected_gammafn_def)

lemma reset_inv_reset: "reset_inv res trafo (Raster_reset SF r0 res pd fmt trafo)"
  by (simp add: reset_inv_def Raster_reset_def Impl_new_fields)

lemma reset_inv_clear:
  "reset_inv res trafo r \<Longrightarrow> Raster_clear r = Some r' \<Longrightarrow> reset_inv res trafo r'"
  by (auto simp: reset_inv_def Raster_clear_def Impl_clear_frame split: option.splits)

lemma reset_inv_draw:
  "reset_inv res trafo r \<Longrightarrow> Raster_draw render r expoly = Some r' \<Longrightarrow> reset_inv res trafo r'"
  by (auto simp: reset_inv_def Raster_draw_def split: option.splits dest: Impl_draw_frame)

lemma reset_inv_run_ops:
  "reset_inv res trafo r \<Longrightarrow> run_ops render r ops = Some r' \<Longrightarrow> reset_inv res trafo r'"
proof (induction ops arbitrary: r)
  case Nil
  then show ?case by simp
next
  case (Cons op ops)
  show ?case
  proof (cases op)
    case (Draw expoly)
    with Cons.prems obtain r1 where "Raster_draw render r expoly = Some r1"
      and "run_ops render r1 ops = Some r'"
      by (auto split: option.splits)
    with Cons.IH Cons.prems(1) show ?thesis by (blast intro: reset_inv_draw)
  next
    case Clear
    with Cons.prems obtain r1 where "Raster_clear r = Some r1"
      and "run_ops render r1 ops = Some r'"
      by (auto split: option.splits)
    with Cons.IH Cons.prems(1) show ?thesis by (blast intro: reset_inv_clear)
  qed
qed

text \<open>
  Claim C7.  A raster is reset with a transformation, then drawn on and cleared any
  number of times.  Its gamma function is still the one selected at the reset: the
  power law with exponent \<open>gamma\<close> when \<open>gamma > 0\<close>, the threshold at one half
  otherwise; and a further \<^verbatim>\<open>draw\<close> renders its paths with exactly that function.
\<close>

theorem gamma_selected_at_reset_used_by_draw:
  assumes "run_ops render (Raster_reset SF r0 res pd fmt trafo) ops = Some r"
  shows "\<exists>s. m_impl r = Some s
           \<and> m_gammafn s = (if gamma trafo > 0 then gamma_power (gamma trafo)
                            else gamma_threshold 0.5)
           \<and> (\<forall>x. coverage (m_gammafn s) x =
                  (if gamma trafo > 0 then x powr gamma trafo else if x < 0.5 then 0 else 1))
           \<and> (\<forall>expoly r'. Raster_draw render r expoly = Some r' \<longrightarrow>
                 (\<exists>paths s'. all_paths s (contour expoly # holes expoly) = Some paths
                    \<and> m_impl r' = Some s'
                    \<and> m_buf s' =
                        map (render (if gamma trafo > 0 then gamma_power (gamma trafo)
                                     else gamma_threshold 0.5)
                               paths res (m_buf s))
                          [0 ..< length (m_buf s)]))"
proof -
  from reset_inv_run_ops[OF reset_inv_reset assms]
  obtain s where s: "m_impl r = Some s" and res: "m_resolution s = res"
    and g: "m_gammafn s = selected_gammafn trafo"
    by (auto simp: reset_inv_def split: option.splits)
  have sel: "selected_gammafn trafo =
      (if gamma trafo > 0 then gamma_power (gamma trafo) else gamma_threshold 0.5)"
    by (simp add: selected_gammafn_def)
  have "\<forall>x. coverage (m_gammafn s) x =
          (if gamma trafo > 0 then x powr gamma trafo else if x < 0.5 then 0 else 1)"
    by (simp add: g sel)
  moreover have "\<forall>expoly r'. Raster_draw render r expoly = Some r' \<longrightarrow>
                 (\<exists>paths s'. all_paths s (contour expoly # holes expoly) = Some paths
                    \<and> m_impl r' = Some s'
                    \<and> m_buf s' =
                        map (render (if gamma trafo > 0 then gamma_power (gamma trafo)
                                     else gamma_threshold 0.5)
                               paths res (m_buf s))
                          [0 ..< length (m_buf s)])"
    using s res g sel
    by (auto simp: Raster_draw_def Impl_draw_def split: option.splits)
  ultimately show ?thesis using s g sel by auto
qed

text \<open>
  The theorem at the sample raster, after one \<^verbatim>\<open>draw\<close> and one \<^verbatim>\<open>clear\<close>: with gamma 1 the
  power law is in force, and the next \<^verbatim>\<open>draw\<close> of the square whitens pixel 4.
\<close>

theorem gamma_selected_at_reset_used_by_draw_witness:
  "\<exists>r s r' s'. run_ops sample_render sample_raster [Draw sample_square, Clear] = Some r
      \<and> m_impl r = Some s \<and> m_gammafn s = gamma_power 1
      \<and> Raster_draw sample_render r sample_square = Some r'
      \<and> m_impl r' = Some s'
      \<and> m_buf s' = [0, 0, 0, 0, 255, 0]"
proof -
  let ?s = "\<lparr>m_resolution = sample_res, m_pxdim_scaled = sample_pd,
             m_buf = [0, 0, 0, 0, 0, 0], m_gammafn = gamma_power 1,
             m_trafo = sample_trafo, m_fmt = RAW\<rparr>"
  let ?r = "\<lparr>m_impl = Some ?s\<rparr>"
  let ?r' = "\<lparr>m_impl = Some (?s\<lparr>m_buf := [0, 0, 0, 0, 255, 0]\<rparr>)\<rparr>"
  have rep: "replicate 6 x = [x, x, x, x, x, x]" for x :: uint8_t
    by (simp add: numeral_eq_Suc)
  have run: "run_ops sample_render sample_raster [Draw sample_square, Clear] = Some ?r"
    by (simp add: rep sample_raster_def Raster_reset_def Raster_default_def Raster_reset_empty_def
        Raster_draw_def Raster_clear_def Impl_draw_def Impl_clear_def Impl_new_def
        mirrored_path_def to_path_def sample_square_def sample_res_def sample_pd_def
        sample_trafo_def pixels_def ColorBlack_def)
  have draw: "Raster_draw sample_render ?r sample_square = Some ?r'"
    by (simp add: Raster_draw_def Impl_draw_def mirrored_path_def to_path_def
        sample_square_def sample_trafo_def sample_render_def ColorWhite_def upt_rec)
  from gamma_selected_at_reset_used_by_draw[OF run[unfolded sample_raster_def]]
  have "m_gammafn ?s = (if gamma sample_trafo > 0 then gamma_power (gamma sample_trafo)
                        else gamma_threshold 0.5)"
    by simp
  then have "m_gammafn ?s = gamma_power 1"
    by (simp add: sample_trafo_def)
  with run draw show ?thesis
    by (intro exI[of _ ?r] exI[of _ ?s] exI[of _ ?r']
        exI[of _ "?s\<lparr>m_buf := [0, 0, 0, 0, 255, 0]\<rparr>"]) simp
qed

section \<open>Rasterizer: the raw portable greyscale format\<close>





lemma length_bytes_of [simp]: "length (bytes_of s) = length s"
  by (simp add: bytes_of_def)




section \<open>Rasterizer: mirroring\<close>





















section \<open>Support tree: what the integrity check accepts\<close>

text \<open>
  What the loop over the pillars does enforce: a pillar on the ground that is higher
  than the solo limit has a link, and no pillar exceeds the two caps.
\<close>

lemma accepted_tree_pillars:
  assumes "check_support_tree_integrity fp EPSILON stree cfg" and "pillar \<in> set (pillars stree)"
  shows "on_ground fp EPSILON stree pillar \<longrightarrow> height pillar > max_solo_pillar_height_mm cfg
           \<longrightarrow> links pillar \<ge> 1"
    and "links pillar \<le> pillar_cascade_neighbors cfg"
    and "bridges pillar \<le> max_bridges_on_pillar cfg"
proof -
  from assms have "check_pillar fp EPSILON stree cfg pillar"
    by (auto simp: check_support_tree_integrity_def list_all_iff split: if_splits)
  then show "on_ground fp EPSILON stree pillar \<longrightarrow> height pillar > max_solo_pillar_height_mm cfg
           \<longrightarrow> links pillar \<ge> 1"
    and "links pillar \<le> pillar_cascade_neighbors cfg"
    and "bridges pillar \<le> max_bridges_on_pillar cfg"
    by (auto simp: check_pillar_def Let_def split: if_splits)
qed

text \<open>
  The second link is asserted only in the \<^verbatim>\<open>else\<close> branch of the first test, that is for
  a height above the dual limit and not above the solo limit.
\<close>

lemma check_pillar_dual_branch:
  "check_pillar fp EPSILON stree cfg pillar \<Longrightarrow> on_ground fp EPSILON stree pillar \<Longrightarrow>
   height pillar > max_dual_pillar_height_mm cfg \<Longrightarrow>
   \<not> height pillar > max_solo_pillar_height_mm cfg \<Longrightarrow> links pillar \<ge> 2"
  by (auto simp: check_pillar_def Let_def split: if_splits)

text \<open>
  When the solo limit is not above the dual limit, no height reaches that branch: the
  round asserts one link above the solo limit, and the two caps.
\<close>

lemma check_pillar_solo_below_dual:
  assumes "max_solo_pillar_height_mm cfg \<le> max_dual_pillar_height_mm cfg"
  shows "check_pillar fp EPSILON stree cfg pillar
           = ((on_ground fp EPSILON stree pillar \<and> height pillar > max_solo_pillar_height_mm cfg
                 \<longrightarrow> links pillar \<ge> 1)
              \<and> links pillar \<le> pillar_cascade_neighbors cfg
              \<and> bridges pillar \<le> max_bridges_on_pillar cfg)"
  using assms by (auto simp: check_pillar_def Let_def)

text \<open>
  In the arithmetic without rounding, the test of the loop says that the end point is
  within \<open>EPSILON\<close> of the ground level.
\<close>

lemma on_ground_exact:
  "on_ground exact_arith EPSILON stree pillar = touches_ground EPSILON stree pillar"
  by (simp add: on_ground_def touches_ground_def exact_arith_def exact2_def)

text \<open>
  The sample tree has no bridges, so the second half of the check computes only the
  bound on the cross bridges.  Whatever the rounding, the check accepts the tree as
  soon as zero minus zero is zero and that bound is not below zero.
\<close>

lemma tall_pillar_tree_accepted:
  assumes "fl_sub fp (Finite 0) (Finite 0) = Finite 0"
    and "d_le (Finite 0) (fl_div fp (Finite 10) (fl_cos fp (Finite (- (pi / 4)))))"
  shows "check_support_tree_integrity fp (1 / 10000) tall_pillar_tree sample_cfg"
  using assms
  by (simp add: check_support_tree_integrity_def check_pillar_def on_ground_def
      tall_pillar_tree_def tall_pillar_def sample_cfg_def Let_def)

text \<open>
  Claim C1 at a pillar that the check does not catch.  The sample pillar stands on the
  ground and is 40 high, above both the solo limit 15 and the dual limit 35, and has
  one link; the check accepts the tree.  The numbers of the sample are small integers,
  on which the arithmetic without rounding is that of \<^verbatim>\<open>double\<close>s, and the bound on the
  cross bridges, 10 divided by the cosine of 45 degrees, is far from zero.
\<close>

theorem integrity_check_accepts_tall_pillar_with_one_link:
  "check_support_tree_integrity exact_arith (1 / 10000) tall_pillar_tree sample_cfg
   \<and> tall_pillar \<in> set (pillars tall_pillar_tree)
   \<and> touches_ground (1 / 10000) tall_pillar_tree tall_pillar
   \<and> height tall_pillar > max_dual_pillar_height_mm sample_cfg
   \<and> links tall_pillar = 1"
proof -
  have "0 < cos (pi / 4)"
    unfolding cos_45 by simp
  then have c: "cos (pi / 4) \<noteq> 0" "0 \<le> cos (pi / 4)"
    by simp_all
  have "check_support_tree_integrity exact_arith (1 / 10000) tall_pillar_tree sample_cfg"
    by (rule tall_pillar_tree_accepted)
       (simp_all add: exact_arith_def exact2_def exact_div_def c)
  then show ?thesis
    by (simp add: touches_ground_def tall_pillar_tree_def tall_pillar_def sample_cfg_def)
qed
section \<open>Pairing hash: symmetry and absence of collisions\<close>

lemma pairhash_commute: "pairhash shift a b = pairhash shift b a"
  by (simp add: pairhash_def min.commute max.commute)

text \<open>Below \<open>2 ^ shift\<close>, and with room for two such fields, the hash is the packed number.\<close>

lemma unat_pairhash:
  fixes a b :: "'a::len word"
  assumes "unat a < 2 ^ shift" and "unat b < 2 ^ shift" and "2 * shift \<le> LENGTH('b::len)"
  shows "unat (pairhash shift a b :: 'b word) = min (unat a) (unat b) * 2 ^ shift + max (unat a) (unat b)"
proof -
  let ?g = "min a b" and ?l = "max a b"
  have g: "unat ?g = min (unat a) (unat b)" and l: "unat ?l = max (unat a) (unat b)"
    by (simp_all add: min_def max_def word_le_nat_alt)
  from assms(1,2) g l have gs: "unat ?g < 2 ^ shift" and ls: "unat ?l < 2 ^ shift"
    by (simp_all add: min_def max_def)
  have pow: "(2::nat) ^ shift * 2 ^ shift \<le> 2 ^ LENGTH('b)"
    using assms(3) by (simp add: power_add [symmetric] mult_2)
  have "unat ?g * 2 ^ shift + unat ?l < 2 ^ shift * 2 ^ shift"
  proof -
    from gs have "unat ?g + 1 \<le> 2 ^ shift" by simp
    then have "(unat ?g + 1) * 2 ^ shift \<le> 2 ^ shift * 2 ^ shift"
      by (rule mult_le_mono1)
    with ls show ?thesis by simp
  qed
  with pow have fit: "unat ?g * 2 ^ shift + unat ?l < 2 ^ LENGTH('b)" by simp
  have sh: "shift < LENGTH('b)"
    using assms(3) by (cases "shift = 0") simp_all
  have "unat ?g < 2 ^ LENGTH('b)" "unat ?l < 2 ^ LENGTH('b)"
    using fit gs ls sh
    by (meson less_le_trans less_imp_le_nat one_le_numeral power_increasing)+
  then have ug: "unat (ucast ?g :: 'b word) = unat ?g" and ul: "unat (ucast ?l :: 'b word) = unat ?l"
    by (simp_all add: unsigned_ucast_eq take_bit_nat_eq_self)
  have small: "unat ?g * 2 ^ shift < 2 ^ LENGTH('b)"
    using fit by simp
  have "unat (push_bit shift (ucast ?g :: 'b word))
          = take_bit LENGTH('b) (push_bit shift (unat (ucast ?g :: 'b word)))"
    by (rule unsigned_push_bit_eq)
  also have "\<dots> = take_bit LENGTH('b) (unat ?g * 2 ^ shift)"
    by (simp add: ug push_bit_eq_mult)
  also have "\<dots> = unat ?g * 2 ^ shift"
    using small by (simp add: take_bit_nat_eq_self)
  finally have "unat (push_bit shift (ucast ?g :: 'b word)) = unat ?g * 2 ^ shift" .
  moreover from this fit ul
  have "unat (push_bit shift (ucast ?g :: 'b word) + ucast ?l)
          = unat (push_bit shift (ucast ?g :: 'b word)) + unat (ucast ?l :: 'b word)"
    by (simp add: unat_add_lem [THEN iffD1])
  ultimately show ?thesis
    using ul g l by (simp add: pairhash_def Let_def)
qed

lemma packed_pair_inj:
  fixes g l g' l' :: nat
  assumes "l < n" and "l' < n" and "g * n + l = g' * n + l'"
  shows "g = g' \<and> l = l'"
proof -
  from assms(1) have "0 < n" by simp
  with assms(1,2) have "(g * n + l) div n = g" and "(g' * n + l') div n = g'"
    by simp_all
  with assms(3) have "g = g'" by simp
  with assms(3) show ?thesis by simp
qed

lemma pairhash_inj:
  fixes a b c d :: "'a::len word"
  assumes "unat a < 2 ^ shift" "unat b < 2 ^ shift" "unat c < 2 ^ shift" "unat d < 2 ^ shift"
    and "2 * shift \<le> LENGTH('b::len)"
    and "(pairhash shift a b :: 'b word) = pairhash shift c d"
  shows "{a, b} = {c, d}"
proof -
  from assms have "min (unat a) (unat b) * 2 ^ shift + max (unat a) (unat b)
      = min (unat c) (unat d) * 2 ^ shift + max (unat c) (unat d)"
    by (metis unat_pairhash)
  moreover have "max (unat a) (unat b) < 2 ^ shift" "max (unat c) (unat d) < 2 ^ shift"
    using assms(1-4) by simp_all
  ultimately have "min (unat a) (unat b) = min (unat c) (unat d)"
    and "max (unat a) (unat b) = max (unat c) (unat d)"
    using packed_pair_inj by blast+
  then have "(unat a = unat c \<and> unat b = unat d) \<or> (unat a = unat d \<and> unat b = unat c)"
    by (auto simp: min_def max_def split: if_splits)
  then have "(a = c \<and> b = d) \<or> (a = d \<and> b = c)"
    by (simp add: word_unat_eq_iff)
  then show ?thesis by auto
qed

section \<open>Pairing hash: what the test decides\<close>

text \<open>A round only ever adds an entry to the map.\<close>

lemma pairhash_round_grows:
  "pairhash_round hash i j ints = Some ints' \<Longrightarrow> ints \<subseteq>\<^sub>m ints'"
  by (auto simp: pairhash_round_def Let_def map_le_def split: if_splits option.splits)

lemma pairhash_inner_grows:
  "pairhash_inner hash i js ints = Some ints' \<Longrightarrow> ints \<subseteq>\<^sub>m ints'"
proof (induction js arbitrary: ints)
  case Nil
  then show ?case by simp
next
  case (Cons j js)
  then obtain m where "pairhash_round hash i j ints = Some m"
    and "pairhash_inner hash i js m = Some ints'"
    by (auto split: option.splits)
  with Cons.IH show ?case
    by (blast intro: map_le_trans pairhash_round_grows)
qed

lemma pairhash_outer_grows:
  "pairhash_outer hash is js ints = Some ints' \<Longrightarrow> ints \<subseteq>\<^sub>m ints'"
proof (induction "is" arbitrary: ints)
  case Nil
  then show ?case by simp
next
  case (Cons i "is")
  then obtain m where "pairhash_inner hash i js ints = Some m"
    and "pairhash_outer hash is js m = Some ints'"
    by (auto split: option.splits)
  with Cons.IH show ?case
    by (blast intro: map_le_trans pairhash_inner_grows)
qed

text \<open>
  Soundness of the test.  After a round that passed, the two orders of the pair hash
  alike and the map holds the pair, in one order or the other, under its hash.
\<close>

lemma recorded_mono: "recorded hash ints i j \<Longrightarrow> ints \<subseteq>\<^sub>m ints' \<Longrightarrow> recorded hash ints' i j"
  unfolding recorded_def map_le_def by (metis domI)

lemma pairhash_round_records:
  "pairhash_round hash i j ints = Some ints' \<Longrightarrow> i \<noteq> j \<Longrightarrow> recorded hash ints' i j"
  by (auto simp: pairhash_round_def recorded_def Let_def split: if_splits option.splits)

lemma pairhash_inner_records:
  "pairhash_inner hash i js ints = Some ints' \<Longrightarrow> j \<in> set js \<Longrightarrow> i \<noteq> j
   \<Longrightarrow> recorded hash ints' i j"
proof (induction js arbitrary: ints)
  case Nil
  then show ?case by simp
next
  case (Cons k js)
  from Cons.prems(1) obtain m where r: "pairhash_round hash i k ints = Some m"
    and rest: "pairhash_inner hash i js m = Some ints'"
    by (auto split: option.splits)
  show ?case
  proof (cases "j = k")
    case True
    with r Cons.prems(3) have "recorded hash m i j"
      by (auto intro: pairhash_round_records)
    with rest show ?thesis
      by (blast intro: recorded_mono pairhash_inner_grows)
  next
    case False
    with Cons.prems(2) have "j \<in> set js" by simp
    with Cons.IH rest Cons.prems(3) show ?thesis by blast
  qed
qed

lemma pairhash_outer_records:
  "pairhash_outer hash is js ints = Some ints' \<Longrightarrow> i \<in> set is \<Longrightarrow> j \<in> set js \<Longrightarrow> i \<noteq> j
   \<Longrightarrow> recorded hash ints' i j"
proof (induction "is" arbitrary: ints)
  case Nil
  then show ?case by simp
next
  case (Cons k "is")
  from Cons.prems(1) obtain m where r: "pairhash_inner hash k js ints = Some m"
    and rest: "pairhash_outer hash is js m = Some ints'"
    by (auto split: option.splits)
  show ?case
  proof (cases "i = k")
    case True
    with r Cons.prems(3,4) have "recorded hash m i j"
      by (auto intro: pairhash_inner_records)
    with rest show ?thesis
      by (blast intro: recorded_mono pairhash_outer_grows)
  next
    case False
    with Cons.prems(2) have "i \<in> set is" by simp
    with Cons.IH rest Cons.prems(3,4) show ?thesis by blast
  qed
qed

lemma test_passed_sound:
  assumes "pairhash_outer hash is is Map.empty = Some ints"
  shows "symmetric_on (set is) hash" and "collision_free_on (set is) hash"
proof -
  note rec = pairhash_outer_records[OF assms]
  show "symmetric_on (set is) hash"
    unfolding symmetric_on_def using rec by (auto simp: recorded_def)
  show "collision_free_on (set is) hash"
    unfolding collision_free_on_def
  proof (intro ballI impI)
    fix i j i' j'
    assume "i \<in> set is" "j \<in> set is" "i' \<in> set is" "j' \<in> set is"
      and "i \<noteq> j" "i' \<noteq> j'" and eq: "hash i j = hash i' j'"
    then have "recorded hash ints i j" and "recorded hash ints i' j'"
      using rec by blast+
    with eq show "{i, j} = {i', j'}"
      by (auto simp: recorded_def)
  qed
qed

text \<open>
  Completeness of the test.  While the hash is symmetric and free of collisions on the
  indices, every entry of the map is a pair of different indices under its own hash,
  and no assertion fails.
\<close>

lemma symmetric_onD:
  "symmetric_on S hash \<Longrightarrow> i \<in> S \<Longrightarrow> j \<in> S \<Longrightarrow> i \<noteq> j \<Longrightarrow> hash i j = hash j i"
  by (simp add: symmetric_on_def)

lemma collision_free_onD:
  "collision_free_on S hash \<Longrightarrow> i \<in> S \<Longrightarrow> j \<in> S \<Longrightarrow> i' \<in> S \<Longrightarrow> j' \<in> S
   \<Longrightarrow> i \<noteq> j \<Longrightarrow> i' \<noteq> j' \<Longrightarrow> hash i j = hash i' j' \<Longrightarrow> {i, j} = {i', j'}"
  unfolding collision_free_on_def
  by (drule bspec, assumption, drule bspec, assumption, drule bspec, assumption,
      drule bspec, assumption) (elim impE, assumption+)

lemma ints_inv_update:
  assumes "ints_inv S hash ints" and "i \<in> S" and "j \<in> S" and "i \<noteq> j"
  shows "ints_inv S hash (ints(hash i j \<mapsto> (i, j)))"
  unfolding ints_inv_def
proof (intro allI impI)
  fix k a b
  assume e: "(ints(hash i j \<mapsto> (i, j))) k = Some (a, b)"
  show "a \<in> S \<and> b \<in> S \<and> a \<noteq> b \<and> hash a b = k"
  proof (cases "k = hash i j")
    case True
    with e have "a = i" "b = j" by simp_all
    with assms(2-4) True show ?thesis by simp
  next
    case False
    with e have "ints k = Some (a, b)" by simp
    with assms(1) show ?thesis unfolding ints_inv_def by blast
  qed
qed

lemma pairhash_round_passes:
  assumes "symmetric_on S hash" and "collision_free_on S hash" and "ints_inv S hash ints"
    and "i \<in> S" and "j \<in> S"
  shows "\<exists>ints'. pairhash_round hash i j ints = Some ints' \<and> ints_inv S hash ints'"
proof (cases "j = i")
  case True
  with assms(3) show ?thesis by (simp add: pairhash_round_def)
next
  case False
  then have ij: "i \<noteq> j" by simp
  from symmetric_onD[OF assms(1,4,5) ij] have sym: "hash i j = hash j i" .
  show ?thesis
  proof (cases "ints (hash i j)")
    case None
    with False sym have "pairhash_round hash i j ints = Some (ints(hash i j \<mapsto> (i, j)))"
      by (simp add: pairhash_round_def Let_def)
    moreover from ints_inv_update[OF assms(3,4,5) ij]
    have "ints_inv S hash (ints(hash i j \<mapsto> (i, j)))" .
    ultimately show ?thesis by blast
  next
    case (Some it)
    obtain a b where it: "it = (a, b)" by (cases it)
    with Some assms(3) have ab: "a \<in> S" "b \<in> S" "a \<noteq> b" "hash a b = hash i j"
      unfolding ints_inv_def by blast+
    from collision_free_onD[OF assms(2) ab(1,2) assms(4,5) ab(3) ij ab(4)]
    have "{a, b} = {i, j}" .
    then have "(a = i \<and> b = j) \<or> (a = j \<and> b = i)"
      by (auto simp: doubleton_eq_iff)
    with Some it False sym have "pairhash_round hash i j ints = Some ints"
      by (simp add: pairhash_round_def Let_def)
    with assms(3) show ?thesis by blast
  qed
qed

lemma pairhash_inner_passes:
  assumes "symmetric_on S hash" and "collision_free_on S hash" and "ints_inv S hash ints"
    and "i \<in> S" and "set js \<subseteq> S"
  shows "\<exists>ints'. pairhash_inner hash i js ints = Some ints' \<and> ints_inv S hash ints'"
  using assms(3,5)
proof (induction js arbitrary: ints)
  case Nil
  then show ?case by simp
next
  case (Cons j js)
  from Cons.prems have "j \<in> S" by simp
  from pairhash_round_passes[OF assms(1,2) Cons.prems(1) assms(4) this]
  obtain m where "pairhash_round hash i j ints = Some m" and "ints_inv S hash m"
    by blast
  with Cons.IH[of m] Cons.prems(2) show ?case by simp
qed

lemma pairhash_outer_passes:
  assumes "symmetric_on S hash" and "collision_free_on S hash" and "ints_inv S hash ints"
    and "set is \<subseteq> S" and "set js \<subseteq> S"
  shows "\<exists>ints'. pairhash_outer hash is js ints = Some ints' \<and> ints_inv S hash ints'"
  using assms(3,4)
proof (induction "is" arbitrary: ints)
  case Nil
  then show ?case by simp
next
  case (Cons i "is")
  from Cons.prems have "i \<in> S" by simp
  from pairhash_inner_passes[OF assms(1,2) Cons.prems(1) this assms(5)]
  obtain m where "pairhash_inner hash i js ints = Some m" and "ints_inv S hash m"
    by blast
  with Cons.IH[of m] Cons.prems(2) show ?case by simp
qed

text \<open>The test passes exactly for the hashes that are symmetric and free of collisions.\<close>

lemma test_pairhash_upto_iff:
  "test_pairhash_upto n hash \<longleftrightarrow>
     symmetric_on (of_nat ` {..<n}) hash \<and> collision_free_on (of_nat ` {..<n}) hash"
proof
  assume "test_pairhash_upto n hash"
  then obtain ints where
    "pairhash_outer hash (map of_nat [0 ..< n]) (map of_nat [0 ..< n]) Map.empty = Some ints"
    by (auto simp: test_pairhash_upto_def)
  from test_passed_sound[OF this]
  show "symmetric_on (of_nat ` {..<n}) hash \<and> collision_free_on (of_nat ` {..<n}) hash"
    by (simp add: lessThan_atLeast0)
next
  assume p: "symmetric_on (of_nat ` {..<n}) hash \<and> collision_free_on (of_nat ` {..<n}) hash"
  have "ints_inv (of_nat ` {..<n}) hash Map.empty"
    by (simp add: ints_inv_def)
  with p pairhash_outer_passes[of "of_nat ` {..<n}" hash Map.empty
      "map of_nat [0 ..< n]" "map of_nat [0 ..< n]"]
  show "test_pairhash_upto n hash"
    by (auto simp: test_pairhash_upto_def lessThan_atLeast0)
qed

text \<open>The modelled hash passes the test at whatever shift leaves room for the indices.\<close>

lemma unat_index_below:
  "i \<in> (of_nat ` {..<n} :: 'a::len word set) \<Longrightarrow> unat i < n"
proof -
  assume "i \<in> (of_nat ` {..<n} :: 'a word set)"
  then obtain k where k: "k < n" and i: "i = of_nat k" by auto
  have "unat (of_nat k :: 'a word) \<le> k"
    by (simp add: unat_of_nat)
  with k i show ?thesis by simp
qed

lemma pairhash_passes_test:
  assumes "n \<le> (2::nat) ^ shift" and "2 * shift \<le> LENGTH('b::len)"
  shows "test_pairhash_upto n (pairhash shift :: 'a::len word \<Rightarrow> 'a word \<Rightarrow> 'b word)"
proof -
  let ?S = "of_nat ` {..<n} :: 'a word set"
  let ?h = "pairhash shift :: 'a word \<Rightarrow> 'a word \<Rightarrow> 'b word"
  have small: "unat i < 2 ^ shift" if "i \<in> ?S" for i
    using unat_index_below[OF that] assms(1) by simp
  have "symmetric_on ?S ?h"
    by (simp add: symmetric_on_def pairhash_commute)
  moreover have "collision_free_on ?S ?h"
    unfolding collision_free_on_def
  proof (intro ballI impI)
    fix i j i' j' :: "'a word"
    assume "i \<in> ?S" "j \<in> ?S" "i' \<in> ?S" "j' \<in> ?S" and "?h i j = ?h i' j'"
    then show "{i, j} = {i', j'}"
      by (intro pairhash_inj[OF small small small small assms(2)])
  qed
  ultimately show ?thesis
    by (simp add: test_pairhash_upto_iff)
qed

text \<open>
  Claim C4, for the modelled hash.  For indices below 1000, a shift that leaves room for
  them (\<open>1000 \<le> 2 ^ shift\<close>) and a result type that holds two fields of \<open>shift\<close> bits,
  the hash of a pair does not depend on the order of the pair, and two pairs with the
  same hash are the same unordered pair; so the test of the pairing hash passes.  The
  test's instantiations are 32-bit indices with a 32-bit result (shift 16) and with a
  64-bit result (shift 32).
\<close>

theorem pairhash_symmetric_and_collision_free:
  fixes i j i' j' :: "'a::len word"
  assumes "unat i < 1000" and "unat j < 1000" and "unat i' < 1000" and "unat j' < 1000"
    and "1000 \<le> (2::nat) ^ shift" and "2 * shift \<le> LENGTH('b::len)"
  shows "(pairhash shift i j :: 'b word) = pairhash shift j i
       \<and> ((pairhash shift i j :: 'b word) = pairhash shift i' j' \<longrightarrow> {i, j} = {i', j'})
       \<and> test_pairhash (pairhash shift :: 'a word \<Rightarrow> 'a word \<Rightarrow> 'b word)"
proof -
  from assms(1-5) have "unat i < 2 ^ shift" "unat j < 2 ^ shift"
    "unat i' < 2 ^ shift" "unat j' < 2 ^ shift"
    by simp_all
  from pairhash_inj [OF this assms(6)]
  have "(pairhash shift i j :: 'b word) = pairhash shift i' j' \<longrightarrow> {i, j} = {i', j'}"
    by blast
  moreover have "test_pairhash (pairhash shift :: 'a word \<Rightarrow> 'a word \<Rightarrow> 'b word)"
    unfolding test_pairhash_def using assms(5,6) by (rule pairhash_passes_test)
  ultimately show ?thesis
    by (simp add: pairhash_commute [of shift i j])
qed

text \<open>
  The theorem at the indices 3 and 7, for both result widths: the two orders give the
  same hash, a different pair gives another one, and the test passes.
\<close>

theorem pairhash_symmetric_and_collision_free_witness:
  "(pairhash 16 (3 :: 32 word) 7 :: 32 word) = pairhash 16 (7 :: 32 word) 3
   \<and> (pairhash 16 (3 :: 32 word) 7 :: 32 word) = 196615
   \<and> (pairhash 16 (3 :: 32 word) 7 :: 32 word) \<noteq> pairhash 16 (3 :: 32 word) 8
   \<and> test_pairhash (pairhash 16 :: 32 word \<Rightarrow> 32 word \<Rightarrow> 32 word)
   \<and> (pairhash 32 (3 :: 32 word) 7 :: 64 word) = pairhash 32 (7 :: 32 word) 3
   \<and> (pairhash 32 (3 :: 32 word) 7 :: 64 word) \<noteq> pairhash 32 (3 :: 32 word) 8
   \<and> test_pairhash (pairhash 32 :: 32 word \<Rightarrow> 32 word \<Rightarrow> 64 word)"
proof -
  have ne: "{3 :: 32 word, 7} \<noteq> {3, 8}"
    by (simp add: doubleton_eq_iff)
  have "(pairhash 16 (3 :: 32 word) 7 :: 32 word) = pairhash 16 (7 :: 32 word) 3
      \<and> ((pairhash 16 (3 :: 32 word) 7 :: 32 word) = pairhash 16 (3 :: 32 word) 8 \<longrightarrow> {3 :: 32 word, 7} = {3, 8})
      \<and> test_pairhash (pairhash 16 :: 32 word \<Rightarrow> 32 word \<Rightarrow> 32 word)"
    by (rule pairhash_symmetric_and_collision_free [of "3 :: 32 word" 7 3 8 16, where 'b = 32])
       simp_all
  moreover have "(pairhash 32 (3 :: 32 word) 7 :: 64 word) = pairhash 32 (7 :: 32 word) 3
      \<and> ((pairhash 32 (3 :: 32 word) 7 :: 64 word) = pairhash 32 (3 :: 32 word) 8 \<longrightarrow> {3 :: 32 word, 7} = {3, 8})
      \<and> test_pairhash (pairhash 32 :: 32 word \<Rightarrow> 32 word \<Rightarrow> 64 word)"
    by (rule pairhash_symmetric_and_collision_free [of "3 :: 32 word" 7 3 8 32, where 'b = 64])
       simp_all
  moreover have "(pairhash 16 (3 :: 32 word) 7 :: 32 word) = 196615"
    by (simp add: pairhash_def)
  ultimately show ?thesis
    using ne by blast
qed

section \<open>Slicing: one slice per level\<close>

text \<open>
  Claim C6, for the modelled slicing.  The slices of a support tree over a grid are as
  many as the levels of the grid, and so as many as the slices of the model over the
  same grid, whatever the two closing radii: the assertion of the test holds.
\<close>

theorem support_slices_one_per_level:
  "length (SupportTreeBuilder_slice section_at retrieve_mesh stree grid cr) = length grid
   \<and> length (SupportTreeBuilder_slice section_at retrieve_mesh stree grid cr)
       = length (TriangleMeshSlicer_slice section_at mesh grid cr')
   \<and> slice_counts_match (SupportTreeBuilder_slice section_at retrieve_mesh stree grid cr)
       (TriangleMeshSlicer_slice section_at mesh grid cr')"
  by (simp add: SupportTreeBuilder_slice_def TriangleMeshSlicer_slice_def slice_counts_match_def)

end
